theory Spec2Isabelle
  imports Main
begin

section \<open>The proxy manager of app/proxy\_manager.py\<close>

text \<open>
  \<^verbatim>\<open>ProxyManager\<close> keeps its state in class attributes and is used through class
  methods only. The model passes that state explicitly. What the methods read from the
  outside world (the clock, the reply of the proxy site, the outcome of a proxy test, a
  random draw) is an argument of the modelled method; what they write to the outside
  world (log lines, \<^verbatim>\<open>print\<close>) is appended to the field \<open>printed\<close>.

  A \<^verbatim>\<open>datetime\<close> is the number of microseconds since the epoch and a
  \<^verbatim>\<open>timedelta\<close> a number of microseconds, both unbounded integers (Python's
  \<^verbatim>\<open>datetime\<close> ends with the year 9999; the model has no such end).

  Python lists are objects with an identity: a variable holds a reference, and
  \<^verbatim>\<open>return cls._proxies\<close> hands out the reference, not the contents. The field
  \<open>heap\<close> maps each reference to the contents of its list; references are handed out
  in increasing order by \<open>new_list\<close>.
\<close>

type_synonym datetime = int
type_synonym timedelta = int
type_synonym ref = nat

datatype error = IndexError | KeyError | TypeError | UnboundLocalError

text \<open>
  What \<^verbatim>\<open>requests.get(url)\<close> followed by \<^verbatim>\<open>raise_for_status()\<close> and the
  decoding of the body gives: the decoded body, or a
  \<^verbatim>\<open>requests.exceptions.RequestException\<close> (connection error, timeout, bad status).
\<close>

datatype 'a response = RequestException | Response 'a

datatype event =
    Getting_proxies
  | Testing_proxies
  | Found_proxies nat
  | Error_downloading

record state =
  heap :: "ref \<Rightarrow> string list"
  next_ref :: ref
  cls_proxies :: ref
  cls_proxy_timestamp :: "datetime option"
  cls_refresh_count :: int
  printed :: "event list"

text \<open>\<^verbatim>\<open>__proxy_expiration = timedelta(minutes=6)\<close>\<close>

definition proxy_expiration :: timedelta where
  "proxy_expiration = 6 * 60 * 1000000"

text \<open>The contents of the list \<^verbatim>\<open>cls._proxies\<close> refers to.\<close>

definition pool :: "state \<Rightarrow> string list" where
  "pool s = heap s (cls_proxies s)"

text \<open>A list display or a call that builds a list creates a new list object.\<close>

definition new_list :: "string list \<Rightarrow> state \<Rightarrow> ref \<times> state" where
  "new_list xs s =
     (next_ref s, s\<lparr>heap := (heap s)(next_ref s := xs), next_ref := Suc (next_ref s)\<rparr>)"

definition emit :: "event \<Rightarrow> state \<Rightarrow> state" where
  "emit e s = s\<lparr>printed := printed s @ [e]\<rparr>"

text \<open>
  The class body, run once when the module is imported: \<^verbatim>\<open>_proxies = []\<close>,
  \<^verbatim>\<open>__proxy_timestamp = datetime.now()\<close>, \<^verbatim>\<open>__refresh_count = 0\<close>.
\<close>

definition initial :: "datetime \<Rightarrow> state" where
  "initial now =
     \<lparr>heap = (\<lambda>_. []), next_ref = 1, cls_proxies = 0,
      cls_proxy_timestamp = Some now, cls_refresh_count = 0, printed = []\<rparr>"

subsection \<open>The fetchers\<close>

text \<open>
  Python's \<^verbatim>\<open>text.split(sep)\<close> for a separator of one character: the pieces between
  the separators, in order, empty pieces included.
\<close>

fun str_split :: "string \<Rightarrow> char \<Rightarrow> string list" where
  "str_split [] sep = [[]]"
| "str_split (c # cs) sep =
     (if c = sep then [] # str_split cs sep
      else (case str_split cs sep of
              [] \<Rightarrow> [[c]]
            | w # ws \<Rightarrow> (c # w) # ws))"

definition newline :: char where
  "newline = CHR 0x0A"

text \<open>
  \<^verbatim>\<open>__get_proxies\<close>: the body of the reply split at \<^verbatim>\<open>"\n"\<close>; when the request
  raises, the error is printed and a new empty list returned.
\<close>

definition get_proxies :: "string response \<Rightarrow> state \<Rightarrow> ref \<times> state" where
  "get_proxies resp s =
     (case resp of
        Response proxy_text \<Rightarrow> new_list (str_split proxy_text newline) s
      | RequestException \<Rightarrow> new_list [] (emit Error_downloading s))"

text \<open>
  \<^verbatim>\<open>__get_proxies_2\<close>: the reply is a JSON array of objects; an object is given as
  its list of keys, each with the \<^verbatim>\<open>str()\<close> of its value. The comprehension raises
  KeyError at an object with \<^verbatim>\<open>"ip"\<close> and without \<^verbatim>\<open>"port"\<close>.
\<close>

type_synonym json_object = "(string \<times> string) list"

fun ip_list_comprehension :: "json_object list \<Rightarrow> error + string list" where
  "ip_list_comprehension [] = Inr []"
| "ip_list_comprehension (proxy # proxies) =
     (case map_of proxy ''ip'' of
        None \<Rightarrow> ip_list_comprehension proxies
      | Some ip \<Rightarrow>
          (case map_of proxy ''port'' of
             None \<Rightarrow> Inl KeyError
           | Some port \<Rightarrow>
               (case ip_list_comprehension proxies of
                  Inl e \<Rightarrow> Inl e
                | Inr ips \<Rightarrow> Inr ((ip @ '':'' @ port) # ips))))"

text \<open>
  \<^verbatim>\<open>return ip_list\<close> reads a local variable: unbound, the read raises
  UnboundLocalError.
\<close>

definition return_local :: "ref option \<Rightarrow> state \<Rightarrow> (error + ref) \<times> state" where
  "return_local var s =
     (case var of None \<Rightarrow> (Inl UnboundLocalError, s) | Some r \<Rightarrow> (Inr r, s))"

text \<open>
  The local \<^verbatim>\<open>ip_list\<close> is assigned at the end of the \<^verbatim>\<open>try\<close> block only. The
  handler catches \<^verbatim>\<open>RequestException\<close>, prints, and falls through to the
  \<^verbatim>\<open>return\<close>; any other exception leaves the function.
\<close>

definition get_proxies_2 :: "json_object list response \<Rightarrow> state \<Rightarrow> (error + ref) \<times> state" where
  "get_proxies_2 resp s =
     (case resp of
        RequestException \<Rightarrow> return_local None (emit Error_downloading s)
      | Response proxies \<Rightarrow>
          (case ip_list_comprehension proxies of
             Inl e \<Rightarrow> (Inl e, s)
           | Inr ips \<Rightarrow> (let (ip_list, s') = new_list ips s in return_local (Some ip_list) s')))"

subsection \<open>The pool\<close>

text \<open>
  \<^verbatim>\<open>proxies_async\<close>. \<open>now1\<close> is the clock at the expiry test, \<open>resp\<close> the reply
  of the proxy site and \<open>now2\<close> the clock when the timestamp is stored. The call of
  \<^verbatim>\<open>__test_proxy\<close> and the \<^verbatim>\<open>async with cls.__lock\<close> are comments in the source,
  so the method stores what \<^verbatim>\<open>__get_proxies\<close> returned. Adding a
  \<^verbatim>\<open>timedelta\<close> to \<^verbatim>\<open>None\<close> raises TypeError.
\<close>

definition proxies_async ::
  "datetime \<Rightarrow> string response \<Rightarrow> datetime \<Rightarrow> state \<Rightarrow> error + ref \<times> state" where
  "proxies_async now1 resp now2 s =
     (case (if pool s \<noteq> []
            then (case cls_proxy_timestamp s of
                    None \<Rightarrow> Inl TypeError
                  | Some t \<Rightarrow>
                      if t + proxy_expiration < now1
                      then (let (empty, s') = new_list [] s in Inr (s'\<lparr>cls_proxies := empty\<rparr>))
                      else Inr s)
            else Inr s) of
        Inl e \<Rightarrow> Inl e
      | Inr s1 \<Rightarrow>
          (let s2 =
             (if pool s1 = []
              then (let sa = emit Getting_proxies s1;
                        (all_proxies, sb) = get_proxies resp sa;
                        sc = emit Testing_proxies sb;
                        sd = sc\<lparr>cls_proxies := all_proxies\<rparr>;
                        se = emit (Found_proxies (length (pool sd))) sd
                    in se\<lparr>cls_proxy_timestamp := Some now2\<rparr>)
              else s1)
           in Inr (cls_proxies s2, s2)))"

text \<open>\<^verbatim>\<open>refresh_proxies\<close>: the same cycle, unconditionally.\<close>

definition refresh_proxies :: "string response \<Rightarrow> datetime \<Rightarrow> state \<Rightarrow> state" where
  "refresh_proxies resp now s =
     (let sa = emit Getting_proxies s;
          (all_proxies, sb) = get_proxies resp sa;
          sc = emit Testing_proxies sb;
          sd = sc\<lparr>cls_proxies := all_proxies\<rparr>;
          se = emit (Found_proxies (length (pool sd))) sd
      in se\<lparr>cls_proxy_timestamp := Some now\<rparr>)"

text \<open>
  \<^verbatim>\<open>get_random_proxy\<close>: \<open>draw\<close> is the random number behind
  \<^verbatim>\<open>random.choice\<close>, which picks the element at an index below the length.
\<close>

definition get_random_proxy :: "nat \<Rightarrow> state \<Rightarrow> string option \<times> state" where
  "get_random_proxy draw s =
     (if pool s = [] then (None, s)
      else (Some (pool s ! (draw mod length (pool s))), s))"

text \<open>
  \<^verbatim>\<open>get_stats\<close> and \<^verbatim>\<open>_get_next_refresh_time\<close>. \<open>Isoformat t\<close> stands for the
  string \<^verbatim>\<open>t.isoformat()\<close>.
\<close>

datatype stat_value = None_value | Str string | Isoformat datetime

record stats =
  proxy_count :: nat
  last_refresh :: stat_value
  next_refresh :: stat_value
  refresh_count :: int

definition get_next_refresh_time :: "state \<Rightarrow> stat_value" where
  "get_next_refresh_time s =
     (case cls_proxy_timestamp s of
        None \<Rightarrow> Str ''Unknown''
      | Some t \<Rightarrow> Isoformat (t + proxy_expiration))"

definition get_stats :: "state \<Rightarrow> stats" where
  "get_stats s =
     \<lparr>proxy_count = length (pool s),
      last_refresh = (case cls_proxy_timestamp s of Some t \<Rightarrow> Isoformat t | None \<Rightarrow> None_value),
      next_refresh = get_next_refresh_time s,
      refresh_count = cls_refresh_count s\<rparr>"

subsection \<open>Testing proxies\<close>

text \<open>
  \<^verbatim>\<open>__test_single_proxy\<close>: one request through the proxy with a timeout of three
  seconds. \<open>Status c\<close> is a reply with status code \<open>c\<close>, \<open>Request_failed\<close> any
  exception of the request (the bare \<^verbatim>\<open>except\<close> swallows it). The header is
  chosen by \<^verbatim>\<open>random.choice(headers_list)\<close> before the \<^verbatim>\<open>try\<close>, which raises
  IndexError on an empty list; \<^verbatim>\<open>headers_list\<close> comes from a module that is not
  among the sources and is a parameter here.
\<close>

datatype http_reply = Status int | Request_failed

definition test_single_proxy :: "'h list \<Rightarrow> http_reply \<Rightarrow> error + bool" where
  "test_single_proxy headers_list reply =
     (if headers_list = [] then Inl IndexError
      else (case reply of Status c \<Rightarrow> Inr (c = 200) | Request_failed \<Rightarrow> Inr False))"

text \<open>
  The batch testers get the outcome of the test of the proxy at position \<open>i\<close> as
  \<open>run i proxy\<close>: \<open>Inr b\<close> when the test returned \<open>b\<close>, \<open>Inl e\<close> when the task
  raised. \<^verbatim>\<open>asyncio.gather(*tasks, return_exceptions=True)\<close> returns the outcomes of
  the tasks in the order of the tasks. The debug lines of the testers are left out.
\<close>

definition gather :: "(nat \<Rightarrow> string \<Rightarrow> error + bool) \<Rightarrow> string list \<Rightarrow> (error + bool) list" where
  "gather run proxies = map (\<lambda>(i, proxy). run i proxy) (enumerate 0 proxies)"

text \<open>
  The loop \<^verbatim>\<open>for i, result in enumerate(results)\<close> of \<^verbatim>\<open>_test_proxy_batch\<close>;
  \<^verbatim>\<open>proxies[i]\<close> raises IndexError out of range.
\<close>

fun process_results ::
  "string list \<Rightarrow> (nat \<times> (error + bool)) list \<Rightarrow> string list \<Rightarrow> error + string list" where
  "process_results proxies [] valid_proxies = Inr valid_proxies"
| "process_results proxies ((i, result) # rest) valid_proxies =
     (case result of
        Inl e \<Rightarrow> process_results proxies rest valid_proxies
      | Inr ok \<Rightarrow>
          if ok
          then (if i < length proxies
                then process_results proxies rest (valid_proxies @ [proxies ! i])
                else Inl IndexError)
          else process_results proxies rest valid_proxies)"

text \<open>\<^verbatim>\<open>_test_proxy_batch\<close>; any exception of its body gives the empty list.\<close>

definition test_proxy_batch :: "(nat \<Rightarrow> string \<Rightarrow> error + bool) \<Rightarrow> string list \<Rightarrow> string list" where
  "test_proxy_batch run proxies =
     (case process_results proxies (enumerate 0 (gather run proxies)) [] of
        Inl e \<Rightarrow> []
      | Inr valid_proxies \<Rightarrow> valid_proxies)"

text \<open>\<^verbatim>\<open>_test_proxy_sync\<close>: one test after the other, an exception skips the proxy.\<close>

fun test_proxy_sync_loop ::
  "(nat \<Rightarrow> string \<Rightarrow> error + bool) \<Rightarrow> (nat \<times> string) list \<Rightarrow> string list \<Rightarrow> string list" where
  "test_proxy_sync_loop run [] valid_proxies = valid_proxies"
| "test_proxy_sync_loop run ((i, proxy) # rest) valid_proxies =
     (case run i proxy of
        Inl e \<Rightarrow> test_proxy_sync_loop run rest valid_proxies
      | Inr ok \<Rightarrow>
          test_proxy_sync_loop run rest (if ok then valid_proxies @ [proxy] else valid_proxies))"

definition test_proxy_sync :: "(nat \<Rightarrow> string \<Rightarrow> error + bool) \<Rightarrow> string list \<Rightarrow> string list" where
  "test_proxy_sync run proxies = test_proxy_sync_loop run (enumerate 0 proxies) []"

text \<open>
  \<^verbatim>\<open>__test_proxy\<close>: batches of twenty, \<^verbatim>\<open>proxies[i : i + batch_size]\<close> for
  \<open>i = 0, 20, 40, ...\<close>. \<^verbatim>\<open>_test_proxy_batch\<close> has no raising path, so the handler
  that falls back to \<^verbatim>\<open>_test_proxy_sync\<close> is never entered. No method calls
  \<^verbatim>\<open>__test_proxy\<close>.
\<close>

definition batch_size :: nat where
  "batch_size = 20"

function test_proxy_loop ::
  "(nat \<Rightarrow> string \<Rightarrow> error + bool) \<Rightarrow> string list \<Rightarrow> nat \<Rightarrow> string list \<Rightarrow> string list" where
  "test_proxy_loop run proxies i valid_proxies =
     (if i < length proxies
      then test_proxy_loop run proxies (i + batch_size)
             (valid_proxies
              @ test_proxy_batch (\<lambda>j. run (i + j)) (take batch_size (drop i proxies)))
      else valid_proxies)"
  by pat_completeness auto
termination
  by (relation "measure (\<lambda>(run, proxies, i, valid_proxies). length proxies - i)")
     (auto simp: batch_size_def)

definition test_proxy :: "(nat \<Rightarrow> string \<Rightarrow> error + bool) \<Rightarrow> string list \<Rightarrow> string list" where
  "test_proxy run proxies = test_proxy_loop run proxies 0 []"

subsection \<open>Runs of the service\<close>

text \<open>
  The states the service can be in: the class body has run, and then the routes and the
  periodic task have called \<^verbatim>\<open>proxies_async\<close> and \<^verbatim>\<open>refresh_proxies\<close> any number
  of times (\<^verbatim>\<open>get_random_proxy\<close> and \<^verbatim>\<open>get_stats\<close> change nothing).
\<close>

inductive reachable :: "state \<Rightarrow> bool" where
  start: "reachable (initial now)"
| read: "reachable s \<Longrightarrow> proxies_async now1 resp now2 s = Inr (r, s') \<Longrightarrow> reachable s'"
| refresh: "reachable s \<Longrightarrow> reachable (refresh_proxies resp now s)"

text \<open>
  Neither \<^verbatim>\<open>proxies_async\<close> nor what it calls has an \<^verbatim>\<open>await\<close>, so the event loop
  runs each call to its end before it starts the next: \<open>n\<close> calls made at the same time
  are \<open>n\<close> calls in a row, each with its own clock readings and reply.
\<close>

fun proxies_async_calls ::
  "(datetime \<times> string response \<times> datetime) list \<Rightarrow> state \<Rightarrow> error + ref list \<times> state" where
  "proxies_async_calls [] s = Inr ([], s)"
| "proxies_async_calls ((now1, resp, now2) # calls) s =
     (case proxies_async now1 resp now2 s of
        Inl e \<Rightarrow> Inl e
      | Inr (r, s') \<Rightarrow>
          (case proxies_async_calls calls s' of
             Inl e \<Rightarrow> Inl e
           | Inr (rs, s'') \<Rightarrow> Inr (r # rs, s'')))"

text \<open>The number of refresh cycles that have started: each logs one line first.\<close>

definition refresh_cycles :: "state \<Rightarrow> nat" where
  "refresh_cycles s = length (filter (\<lambda>e. e = Getting_proxies) (printed s))"

text \<open>Python's \<^verbatim>\<open>xs.append(x)\<close> on the list object \<open>r\<close>, as a caller may run it.\<close>

definition list_append :: "ref \<Rightarrow> string \<Rightarrow> state \<Rightarrow> state" where
  "list_append r x s = s\<lparr>heap := (heap s)(r := heap s r @ [x])\<rparr>"

text \<open>Python's \<^verbatim>\<open>sep.join(xs)\<close> for a separator of one character.\<close>

fun str_join :: "char \<Rightarrow> string list \<Rightarrow> string" where
  "str_join sep [] = []"
| "str_join sep [x] = x"
| "str_join sep (x # y # ys) = x @ sep # str_join sep (y # ys)"

text \<open>
  The state after the statement \<^verbatim>\<open>cls._proxies = []\<close> that \<^verbatim>\<open>proxies_async\<close>
  runs on an expired pool.
\<close>

definition cleared :: "state \<Rightarrow> state" where
  "cleared s = (snd (new_list [] s))\<lparr>cls_proxies := next_ref s\<rparr>"

text \<open>
  The condition under which \<^verbatim>\<open>proxies_async\<close> runs a refresh cycle: the pool is
  empty, or its timestamp plus the expiration window is before the clock.
\<close>

definition stale :: "datetime \<Rightarrow> state \<Rightarrow> bool" where
  "stale now1 s =
     (pool s = [] \<or>
      (case cls_proxy_timestamp s of None \<Rightarrow> False | Some t \<Rightarrow> t + proxy_expiration < now1))"

text \<open>The contents of the list a call returned, in the state the call left.\<close>

definition returned_list :: "ref \<times> state \<Rightarrow> string list" where
  "returned_list call = heap (snd call) (fst call)"

text \<open>
  A test run in which the request through \<^verbatim>\<open>1.1.1.1:80\<close> is answered with status
  200 and the request through any other proxy fails.
\<close>

definition scenario_run :: "nat \<Rightarrow> string \<Rightarrow> error + bool" where
  "scenario_run i proxy =
     test_single_proxy [()] (if proxy = ''1.1.1.1:80'' then Status 200 else Request_failed)"

section \<open>Properties\<close>

subsection \<open>What a refresh cycle stores\<close>

lemma refresh_proxies_eq:
  "refresh_proxies resp now s =
     s\<lparr>heap := (heap s)(next_ref s :=
          (case resp of Response text \<Rightarrow> str_split text newline | RequestException \<Rightarrow> [])),
       next_ref := Suc (next_ref s),
       cls_proxies := next_ref s,
       cls_proxy_timestamp := Some now,
       printed := printed s @ Getting_proxies #
         (case resp of Response text \<Rightarrow> [] | RequestException \<Rightarrow> [Error_downloading])
         @ [Testing_proxies,
            Found_proxies (length (case resp of Response text \<Rightarrow> str_split text newline
                                   | RequestException \<Rightarrow> []))]\<rparr>"
  by (cases resp)
     (simp_all add: refresh_proxies_def get_proxies_def new_list_def emit_def pool_def Let_def)

lemma refresh_proxies_pool:
  "pool (refresh_proxies resp now s) =
     (case resp of Response text \<Rightarrow> str_split text newline | RequestException \<Rightarrow> [])"
  by (simp add: refresh_proxies_eq pool_def)

lemma refresh_proxies_timestamp:
  "cls_proxy_timestamp (refresh_proxies resp now s) = Some now"
  by (simp add: refresh_proxies_eq)

lemma refresh_proxies_count:
  "cls_refresh_count (refresh_proxies resp now s) = cls_refresh_count s"
  by (simp add: refresh_proxies_eq)

lemma refresh_proxies_ref:
  "cls_proxies (refresh_proxies resp now s) = next_ref s"
  by (simp add: refresh_proxies_eq)

lemma refresh_proxies_next_ref:
  "next_ref (refresh_proxies resp now s) = Suc (next_ref s)"
  by (simp add: refresh_proxies_eq)

lemma refresh_proxies_heap:
  "heap (refresh_proxies resp now s) =
     (heap s)(next_ref s :=
        (case resp of Response text \<Rightarrow> str_split text newline | RequestException \<Rightarrow> []))"
  by (simp add: refresh_proxies_eq)

lemma refresh_proxies_printed:
  "printed (refresh_proxies resp now s) =
     printed s @ Getting_proxies #
       (case resp of Response text \<Rightarrow> [] | RequestException \<Rightarrow> [Error_downloading])
       @ [Testing_proxies,
          Found_proxies (length (case resp of Response text \<Rightarrow> str_split text newline
                                 | RequestException \<Rightarrow> []))]"
  by (simp add: refresh_proxies_eq)

text \<open>The ways through \<^verbatim>\<open>proxies_async\<close>.\<close>

lemma proxies_async_empty:
  "pool s = [] \<Longrightarrow>
   proxies_async now1 resp now2 s =
     Inr (cls_proxies (refresh_proxies resp now2 s), refresh_proxies resp now2 s)"
  by (simp add: proxies_async_def refresh_proxies_def Let_def split: prod.splits)

lemma proxies_async_fresh:
  "pool s \<noteq> [] \<Longrightarrow> cls_proxy_timestamp s = Some t \<Longrightarrow> \<not> t + proxy_expiration < now1 \<Longrightarrow>
   proxies_async now1 resp now2 s = Inr (cls_proxies s, s)"
  by (simp add: proxies_async_def)

lemma proxies_async_expired:
  "pool s \<noteq> [] \<Longrightarrow> cls_proxy_timestamp s = Some t \<Longrightarrow> t + proxy_expiration < now1 \<Longrightarrow>
   proxies_async now1 resp now2 s =
     Inr (cls_proxies (refresh_proxies resp now2 (cleared s)),
          refresh_proxies resp now2 (cleared s))"
  by (simp add: proxies_async_def refresh_proxies_def cleared_def Let_def new_list_def pool_def
      split: prod.splits)

lemma proxies_async_no_timestamp:
  "pool s \<noteq> [] \<Longrightarrow> cls_proxy_timestamp s = None \<Longrightarrow>
   proxies_async now1 resp now2 s = Inl TypeError"
  by (simp add: proxies_async_def)

lemma proxies_async_cases:
  assumes "proxies_async now1 resp now2 s = Inr (r, s')"
  obtains (fresh) "s' = s" "r = cls_proxies s" "pool s \<noteq> []"
  | (empty) "s' = refresh_proxies resp now2 s" "r = cls_proxies s'" "pool s = []"
  | (expired) "s' = refresh_proxies resp now2 (cleared s)" "r = cls_proxies s'" "pool s \<noteq> []"
proof (cases "pool s = []")
  case True
  with assms empty show ?thesis by (auto simp: proxies_async_empty)
next
  case False
  show ?thesis
  proof (cases "cls_proxy_timestamp s")
    case None
    with False assms show ?thesis by (simp add: proxies_async_no_timestamp)
  next
    case (Some t)
    show ?thesis
    proof (cases "t + proxy_expiration < now1")
      case True
      with False Some assms expired show ?thesis by (auto simp: proxies_async_expired)
    next
      case no: False
      with False Some assms fresh show ?thesis by (auto simp: proxies_async_fresh)
    qed
  qed
qed

lemma cleared_fields:
  "cls_proxy_timestamp (cleared s) = cls_proxy_timestamp s"
  "cls_refresh_count (cleared s) = cls_refresh_count s"
  "next_ref (cleared s) = Suc (next_ref s)"
  "printed (cleared s) = printed s"
  "pool (cleared s) = []"
  "heap (cleared s) = (heap s)(next_ref s := [])"
  by (simp_all add: cleared_def new_list_def pool_def)

lemma proxies_async_stale:
  assumes "stale now1 s"
  shows "\<exists>s0. (s0 = s \<or> s0 = cleared s) \<and>
           proxies_async now1 resp now2 s =
             Inr (cls_proxies (refresh_proxies resp now2 s0), refresh_proxies resp now2 s0)"
proof (cases "pool s = []")
  case True
  then show ?thesis by (auto simp: proxies_async_empty)
next
  case False
  with assms obtain t where "cls_proxy_timestamp s = Some t" "t + proxy_expiration < now1"
    by (auto simp: stale_def split: option.splits)
  with False show ?thesis by (auto simp: proxies_async_expired)
qed

text \<open>In every state of a run the timestamp is set, the counter is zero and the pool is a list that exists.\<close>

lemma reachable_invariant:
  "reachable s \<Longrightarrow>
   cls_proxy_timestamp s \<noteq> None \<and> cls_refresh_count s = 0 \<and> cls_proxies s < next_ref s"
proof (induction rule: reachable.induct)
  case (start now)
  show ?case by (simp add: initial_def)
next
  case (read s now1 resp now2 r s')
  from read.hyps(2) show ?case
  proof (cases rule: proxies_async_cases)
    case fresh
    with read.IH show ?thesis by simp
  next
    case empty
    with read.IH show ?thesis
      by (simp add: refresh_proxies_timestamp refresh_proxies_count refresh_proxies_ref
          refresh_proxies_next_ref)
  next
    case expired
    with read.IH show ?thesis
      by (simp add: refresh_proxies_timestamp refresh_proxies_count refresh_proxies_ref
          refresh_proxies_next_ref cleared_fields)
  qed
next
  case (refresh s resp now)
  then show ?case
    by (simp add: refresh_proxies_timestamp refresh_proxies_count refresh_proxies_ref
        refresh_proxies_next_ref)
qed

subsection \<open>Picking a random proxy\<close>

text \<open>
  C7. \<^verbatim>\<open>get_random_proxy\<close> on an empty pool returns \<^verbatim>\<open>None\<close> (it has no error
  result at all); on any pool it returns the state as it got it, so the pool, the
  timestamp and the printed lines are the same and no refresh cycle has run; on a pool that is
  not empty the result is a member of the pool.
\<close>

theorem get_random_proxy_empty_and_frame:
  "(pool s = [] \<longrightarrow> fst (get_random_proxy draw s) = None)
   \<and> snd (get_random_proxy draw s) = s
   \<and> pool (snd (get_random_proxy draw s)) = pool s
   \<and> printed (snd (get_random_proxy draw s)) = printed s
   \<and> (pool s \<noteq> [] \<longrightarrow> (\<exists>p \<in> set (pool s). fst (get_random_proxy draw s) = Some p))"
  by (simp add: get_random_proxy_def)

theorem get_random_proxy_empty_and_frame_witness:
  "pool (initial 0) = []
   \<and> fst (get_random_proxy 7 (initial 0)) = None
   \<and> snd (get_random_proxy 7 (initial 0)) = initial 0
   \<and> pool (refresh_proxies (Response ''1.1.1.1:80'') 5 (initial 0)) = [''1.1.1.1:80'']
   \<and> fst (get_random_proxy 7 (refresh_proxies (Response ''1.1.1.1:80'') 5 (initial 0)))
       = Some ''1.1.1.1:80''
   \<and> snd (get_random_proxy 7 (refresh_proxies (Response ''1.1.1.1:80'') 5 (initial 0)))
       = refresh_proxies (Response ''1.1.1.1:80'') 5 (initial 0)"
proof -
  have e: "pool (initial 0) = []"
    by (simp add: pool_def initial_def)
  have p: "pool (refresh_proxies (Response ''1.1.1.1:80'') 5 (initial 0)) = [''1.1.1.1:80'']"
    by (simp add: refresh_proxies_pool newline_def)
  from get_random_proxy_empty_and_frame [of "initial 0" 7]
    get_random_proxy_empty_and_frame
      [of "refresh_proxies (Response ''1.1.1.1:80'') 5 (initial 0)" 7] e p
  show ?thesis by simp
qed

subsection \<open>The fallback fetcher\<close>

text \<open>
  C10. When the download of \<^verbatim>\<open>__get_proxies_2\<close> raises a
  \<^verbatim>\<open>RequestException\<close>, the handler prints the error and the
  \<^verbatim>\<open>return ip_list\<close> that follows raises UnboundLocalError: the call returns no
  list, and what it leaves behind is the printed line.
\<close>

theorem get_proxies_2_request_fails:
  "fst (get_proxies_2 RequestException s) = Inl UnboundLocalError
   \<and> snd (get_proxies_2 RequestException s) = emit Error_downloading s"
  by (simp add: get_proxies_2_def return_local_def)

subsection \<open>Statistics\<close>

text \<open>
  C6. In every state of a run of the service, \<^verbatim>\<open>get_stats\<close> reports as
  \<^verbatim>\<open>last_refresh\<close> the ISO form of a time \<open>t\<close> and as \<^verbatim>\<open>next_refresh\<close> the ISO
  form of \<open>t\<close> plus the expiration window.
\<close>

theorem next_refresh_is_last_refresh_plus_expiration:
  "reachable s \<Longrightarrow>
   \<exists>t. last_refresh (get_stats s) = Isoformat t
     \<and> next_refresh (get_stats s) = Isoformat (t + proxy_expiration)"
proof -
  assume "reachable s"
  then obtain t where "cls_proxy_timestamp s = Some t"
    using reachable_invariant by blast
  then show ?thesis
    by (simp add: get_stats_def get_next_refresh_time_def)
qed

theorem next_refresh_is_last_refresh_plus_expiration_witness:
  "reachable (refresh_proxies RequestException 9 (initial 0))
   \<and> (\<exists>t. last_refresh (get_stats (refresh_proxies RequestException 9 (initial 0))) = Isoformat t
     \<and> next_refresh (get_stats (refresh_proxies RequestException 9 (initial 0)))
        = Isoformat (t + proxy_expiration))"
proof -
  have r: "reachable (refresh_proxies RequestException 9 (initial 0))"
    by (intro reachable.refresh reachable.start)
  from next_refresh_is_last_refresh_plus_expiration [OF r] r show ?thesis by simp
qed

text \<open>
  C4, as stated, says that a refresh cycle adds one to the counter that
  \<^verbatim>\<open>get_stats\<close> reports. The counter is 0 before and 0 after a cycle that fetched
  one proxy.
\<close>

theorem refresh_count_counterexample:
  "refresh_count (get_stats (initial 0)) = 0
   \<and> refresh_count (get_stats (refresh_proxies (Response ''1.1.1.1:80'') 5 (initial 0))) = 0"
  by (simp add: get_stats_def refresh_proxies_count initial_def)

text \<open>
  C4, amended. No refresh cycle changes the refresh counter: \<^verbatim>\<open>get_stats\<close> reports
  the same \<^verbatim>\<open>refresh_count\<close> after \<^verbatim>\<open>refresh_proxies\<close> and after
  \<^verbatim>\<open>proxies_async\<close> as before, and reports 0 in every state of a run of the service.
\<close>

theorem refresh_count_stays_zero:
  "refresh_count (get_stats (refresh_proxies resp now s)) = refresh_count (get_stats s)
   \<and> (proxies_async now1 resp now2 s = Inr (r, s') \<longrightarrow>
        refresh_count (get_stats s') = refresh_count (get_stats s))
   \<and> (reachable s \<longrightarrow> refresh_count (get_stats s) = 0)"
proof (intro conjI impI)
  show "refresh_count (get_stats (refresh_proxies resp now s)) = refresh_count (get_stats s)"
    by (simp add: get_stats_def refresh_proxies_count)
next
  assume "proxies_async now1 resp now2 s = Inr (r, s')"
  then show "refresh_count (get_stats s') = refresh_count (get_stats s)"
    by (cases rule: proxies_async_cases)
       (simp_all add: get_stats_def refresh_proxies_count cleared_fields)
next
  assume "reachable s"
  then show "refresh_count (get_stats s) = 0"
    using reachable_invariant by (simp add: get_stats_def)
qed

theorem refresh_count_stays_zero_witness:
  "proxies_async 1 (Response ''1.1.1.1:80'') 2 (initial 0)
     = Inr (1, refresh_proxies (Response ''1.1.1.1:80'') 2 (initial 0))
   \<and> reachable (initial 0)
   \<and> refresh_count (get_stats (refresh_proxies (Response ''1.1.1.1:80'') 2 (initial 0)))
       = refresh_count (get_stats (initial 0))
   \<and> refresh_count (get_stats (initial 0)) = 0"
proof -
  have "pool (initial 0) = []"
    by (simp add: initial_def pool_def)
  then have a: "proxies_async 1 (Response ''1.1.1.1:80'') 2 (initial 0)
     = Inr (1, refresh_proxies (Response ''1.1.1.1:80'') 2 (initial 0))"
    by (simp add: proxies_async_empty refresh_proxies_ref) (simp add: initial_def)
  have b: "reachable (initial 0)"
    by (rule reachable.start)
  from refresh_count_stays_zero
    [of "Response ''1.1.1.1:80''" 2 "initial 0" 1 2 1
        "refresh_proxies (Response ''1.1.1.1:80'') 2 (initial 0)"] a b
  show ?thesis by simp
qed

subsection \<open>Refresh cycles\<close>

text \<open>
  C1, as stated, says that the pool a refresh stores is the validated subset of the
  fetched list. The proxy site returns two lines; the test of the second proxy returns
  False, and \<^verbatim>\<open>__test_proxy\<close> would keep the first proxy only; the refresh stores
  both.
\<close>

theorem unvalidated_pool_counterexample:
  "pool (refresh_proxies (Response (''1.1.1.1:80'' @ [newline] @ ''2.2.2.2:80'')) 5 (initial 0))
     = [''1.1.1.1:80'', ''2.2.2.2:80'']
   \<and> scenario_run 1 ''2.2.2.2:80'' = Inr False
   \<and> test_proxy scenario_run [''1.1.1.1:80'', ''2.2.2.2:80''] = [''1.1.1.1:80'']"
  by (simp add: refresh_proxies_pool newline_def scenario_run_def test_single_proxy_def
      test_proxy_def batch_size_def test_proxy_batch_def gather_def)

text \<open>
  C1, amended. After every refresh cycle the pool is the candidate list the fetcher
  returned in that cycle (the body split at newlines, or the empty list when the request
  failed), stored with the time of the cycle; no proxy is tested. This holds for
  \<^verbatim>\<open>refresh_proxies\<close> and for the cycle \<^verbatim>\<open>proxies_async\<close> runs on a stale pool.
\<close>

theorem refresh_stores_fetched_list:
  "pool (refresh_proxies resp now s)
     = (case resp of Response text \<Rightarrow> str_split text newline | RequestException \<Rightarrow> [])
   \<and> cls_proxy_timestamp (refresh_proxies resp now s) = Some now
   \<and> (stale now1 s \<longrightarrow>
        (\<exists>r s'. proxies_async now1 resp now2 s = Inr (r, s')
           \<and> pool s'
               = (case resp of Response text \<Rightarrow> str_split text newline | RequestException \<Rightarrow> [])
           \<and> cls_proxy_timestamp s' = Some now2))"
proof (intro conjI impI)
  assume "stale now1 s"
  from proxies_async_stale [OF this, of resp now2]
  show "\<exists>r s'. proxies_async now1 resp now2 s = Inr (r, s')
           \<and> pool s'
               = (case resp of Response text \<Rightarrow> str_split text newline | RequestException \<Rightarrow> [])
           \<and> cls_proxy_timestamp s' = Some now2"
    by (auto simp: refresh_proxies_pool refresh_proxies_timestamp)
qed (simp_all add: refresh_proxies_pool refresh_proxies_timestamp)

theorem refresh_stores_fetched_list_witness:
  "stale 1 (initial 0)
   \<and> (\<exists>r s'. proxies_async 1 (Response (''1.1.1.1:80'' @ [newline] @ ''2.2.2.2:80'')) 2 (initial 0)
               = Inr (r, s')
           \<and> pool s' = [''1.1.1.1:80'', ''2.2.2.2:80'']
           \<and> cls_proxy_timestamp s' = Some 2)"
proof -
  have st: "stale 1 (initial 0)"
    by (simp add: stale_def pool_def initial_def)
  have sp: "str_split (''1.1.1.1:80'' @ [newline] @ ''2.2.2.2:80'') newline
              = [''1.1.1.1:80'', ''2.2.2.2:80'']"
    by (simp add: newline_def)
  from refresh_stores_fetched_list
    [of "Response (''1.1.1.1:80'' @ [newline] @ ''2.2.2.2:80'')" 2 "initial 0" 1 2] st sp
  show ?thesis by simp
qed

text \<open>
  C2, as stated, says that a refresh cycle whose fetch fails leaves a populated pool
  and its timestamp as they were. A pool of one proxy stored at time 5 is empty after a
  failed refresh at time 9, and its timestamp is 9.
\<close>

theorem failed_fetch_counterexample:
  "pool (refresh_proxies (Response ''1.1.1.1:80'') 5 (initial 0)) = [''1.1.1.1:80'']
   \<and> cls_proxy_timestamp (refresh_proxies (Response ''1.1.1.1:80'') 5 (initial 0)) = Some 5
   \<and> pool (refresh_proxies RequestException 9
              (refresh_proxies (Response ''1.1.1.1:80'') 5 (initial 0))) = []
   \<and> cls_proxy_timestamp (refresh_proxies RequestException 9
              (refresh_proxies (Response ''1.1.1.1:80'') 5 (initial 0))) = Some 9"
  by (simp add: refresh_proxies_pool refresh_proxies_timestamp newline_def)

text \<open>
  C2, amended. A refresh cycle whose fetch fails ends without an error (the failure is
  printed only) with an empty pool and the time of the cycle as timestamp, whatever the
  pool held before. This holds for \<^verbatim>\<open>refresh_proxies\<close> and for the cycle
  \<^verbatim>\<open>proxies_async\<close> runs on a stale pool.
\<close>

theorem failed_fetch_empties_pool:
  "pool (refresh_proxies RequestException now s) = []
   \<and> cls_proxy_timestamp (refresh_proxies RequestException now s) = Some now
   \<and> printed (refresh_proxies RequestException now s)
       = printed s @ [Getting_proxies, Error_downloading, Testing_proxies, Found_proxies 0]
   \<and> (stale now1 s \<longrightarrow>
        (\<exists>r s'. proxies_async now1 RequestException now2 s = Inr (r, s')
           \<and> pool s' = [] \<and> cls_proxy_timestamp s' = Some now2
           \<and> printed s'
               = printed s @ [Getting_proxies, Error_downloading, Testing_proxies, Found_proxies 0]))"
proof (intro conjI impI)
  assume "stale now1 s"
  from proxies_async_stale [OF this, of RequestException now2]
  show "\<exists>r s'. proxies_async now1 RequestException now2 s = Inr (r, s')
           \<and> pool s' = [] \<and> cls_proxy_timestamp s' = Some now2
           \<and> printed s'
               = printed s @ [Getting_proxies, Error_downloading, Testing_proxies, Found_proxies 0]"
    by (auto simp: refresh_proxies_pool refresh_proxies_timestamp refresh_proxies_printed
        cleared_fields)
qed (simp_all add: refresh_proxies_pool refresh_proxies_timestamp refresh_proxies_printed)

theorem failed_fetch_empties_pool_witness:
  "stale (6 + proxy_expiration) (refresh_proxies (Response ''1.1.1.1:80'') 5 (initial 0))
   \<and> pool (refresh_proxies (Response ''1.1.1.1:80'') 5 (initial 0)) = [''1.1.1.1:80'']
   \<and> (\<exists>r s'. proxies_async (6 + proxy_expiration) RequestException 7
                (refresh_proxies (Response ''1.1.1.1:80'') 5 (initial 0)) = Inr (r, s')
           \<and> pool s' = [] \<and> cls_proxy_timestamp s' = Some 7)"
proof -
  have st: "stale (6 + proxy_expiration) (refresh_proxies (Response ''1.1.1.1:80'') 5 (initial 0))"
    by (simp add: stale_def refresh_proxies_timestamp)
  have p: "pool (refresh_proxies (Response ''1.1.1.1:80'') 5 (initial 0)) = [''1.1.1.1:80'']"
    by (simp add: refresh_proxies_pool newline_def)
  from failed_fetch_empties_pool
    [of 9 "refresh_proxies (Response ''1.1.1.1:80'') 5 (initial 0)" "6 + proxy_expiration" 7] st p
  show ?thesis by blast
qed

subsection \<open>The primary fetcher\<close>

lemma str_split_not_Nil: "str_split body sep \<noteq> []"
  by (induction body) (auto split: list.splits)

lemma length_str_split: "length (str_split body sep) = Suc (count_list body sep)"
  by (induction body) (auto split: list.splits simp: str_split_not_Nil)

lemma str_split_no_sep: "line \<in> set (str_split body sep) \<Longrightarrow> sep \<notin> set line"
  by (induction body arbitrary: line) (auto split: list.splits if_splits)

lemma str_join_Cons: "ys \<noteq> [] \<Longrightarrow> str_join sep (x # ys) = x @ sep # str_join sep ys"
  by (cases ys) simp_all

lemma str_join_str_split: "str_join sep (str_split body sep) = body"
proof (induction body)
  case Nil
  show ?case by simp
next
  case (Cons c cs)
  show ?case
  proof (cases "c = sep")
    case True
    with Cons show ?thesis by (simp add: str_join_Cons str_split_not_Nil)
  next
    case False
    obtain w ws where w: "str_split cs sep = w # ws"
      using str_split_not_Nil [of cs sep] by (cases "str_split cs sep") auto
    with Cons False show ?thesis by (cases ws) simp_all
  qed
qed

lemma str_split_snoc_sep: "str_split (body @ [sep]) sep = str_split body sep @ [[]]"
  by (induction body) (auto split: list.splits simp: str_split_not_Nil)

lemma returned_list_get_proxies:
  "returned_list (get_proxies resp s)
     = (case resp of Response body \<Rightarrow> str_split body newline | RequestException \<Rightarrow> [])"
  by (cases resp) (simp_all add: returned_list_def get_proxies_def new_list_def emit_def)

text \<open>
  C5, as stated, says that the fetcher's result has no empty string. A body of one line
  that ends with a newline gives the line and an empty string.
\<close>

theorem blank_lines_kept_counterexample:
  "returned_list (get_proxies (Response (''1.1.1.1:80'' @ [newline])) (initial 0))
     = [''1.1.1.1:80'', '''']"
  by (simp add: returned_list_get_proxies newline_def)

text \<open>
  C5, amended. On a successful fetch the result of \<^verbatim>\<open>__get_proxies\<close> is the body
  split at its newline characters with the blank lines kept: one element more than the
  body has newlines, no element with a newline in it, and the elements joined by
  newlines are the body; the last element of a body that ends with a newline is the
  empty string.
\<close>

theorem get_proxies_splits_at_newlines:
  "returned_list (get_proxies (Response body) s) = str_split body newline
   \<and> length (str_split body newline) = Suc (count_list body newline)
   \<and> (\<forall>line \<in> set (str_split body newline). newline \<notin> set line)
   \<and> str_join newline (str_split body newline) = body
   \<and> last (str_split (body @ [newline]) newline) = ''''"
  by (simp add: returned_list_get_proxies length_str_split str_split_no_sep str_join_str_split
      str_split_snoc_sep)

theorem get_proxies_splits_at_newlines_witness:
  "returned_list (get_proxies (Response (''a'' @ [newline] @ [newline] @ ''b'')) (initial 0))
     = [''a'', '''', ''b'']
   \<and> set (str_split (''a'' @ [newline] @ [newline] @ ''b'') newline) = {''a'', '''', ''b''}
   \<and> newline \<notin> set ''a'' \<and> newline \<notin> set '''' \<and> newline \<notin> set ''b''"
  using get_proxies_splits_at_newlines [of "''a'' @ [newline] @ [newline] @ ''b''" "initial 0"]
  by (simp add: newline_def)

subsection \<open>The batch testers\<close>

text \<open>
  Both testers return the proxies at the positions whose test returned True, in the
  order of the list: \<open>nths xs A\<close> is the list of the elements of \<open>xs\<close> at the
  positions in \<open>A\<close>.
\<close>

lemma process_results_gather:
  "process_results (pre @ xs)
     (enumerate (length pre) (map (\<lambda>(i, proxy). run i proxy) (enumerate (length pre) xs))) valid
   = Inr (valid @ nths xs {j. run (length pre + j) (xs ! j) = Inr True})"
proof (induction xs arbitrary: pre valid)
  case Nil
  show ?case by simp
next
  case (Cons x xs)
  have step: "process_results (pre @ x # xs)
     (enumerate (Suc (length pre)) (map (\<lambda>(i, proxy). run i proxy) (enumerate (Suc (length pre)) xs))) v
   = Inr (v @ nths xs {j. run (Suc (length pre + j)) (xs ! j) = Inr True})" for v
    using Cons.IH [of "pre @ [x]" v] by simp
  show ?case
  proof (cases "run (length pre) x")
    case (Inl e)
    then show ?thesis by (simp add: step nths_Cons)
  next
    case (Inr ok)
    then show ?thesis by (cases ok) (simp_all add: step nths_Cons)
  qed
qed

lemma test_proxy_batch_nths:
  "test_proxy_batch run proxies = nths proxies {i. run i (proxies ! i) = Inr True}"
  using process_results_gather [of "[]" proxies run "[]"]
  by (simp add: test_proxy_batch_def gather_def)

lemma test_proxy_sync_loop_nths:
  "test_proxy_sync_loop run (enumerate n xs) valid
   = valid @ nths xs {j. run (n + j) (xs ! j) = Inr True}"
proof (induction xs arbitrary: n valid)
  case Nil
  show ?case by simp
next
  case (Cons x xs)
  show ?case
  proof (cases "run n x")
    case (Inl e)
    then show ?thesis by (simp add: Cons.IH nths_Cons)
  next
    case (Inr ok)
    then show ?thesis by (cases ok) (simp_all add: Cons.IH nths_Cons)
  qed
qed

lemma test_proxy_sync_nths:
  "test_proxy_sync run proxies = nths proxies {i. run i (proxies ! i) = Inr True}"
  using test_proxy_sync_loop_nths [of run 0 proxies "[]"]
  by (simp add: test_proxy_sync_def)

text \<open>
  \<^verbatim>\<open>__test_proxy\<close> cuts the list into batches; position \<open>j\<close> of the batch that
  starts at \<open>i\<close> is position \<open>i + j\<close> of the list.
\<close>

lemma nths_cong_length:
  assumes "\<And>j. j < length xs \<Longrightarrow> j \<in> A \<longleftrightarrow> j \<in> B"
  shows "nths xs A = nths xs B"
proof -
  have "filter (\<lambda>p. snd p \<in> A) (zip xs [0..<length xs])
        = filter (\<lambda>p. snd p \<in> B) (zip xs [0..<length xs])"
    by (rule filter_cong) (auto dest!: set_zip_rightD simp: assms)
  then show ?thesis by (simp add: nths_def)
qed

lemma test_proxy_loop_nths:
  "test_proxy_loop run proxies i valid
   = valid @ nths (drop i proxies) {j. run (i + j) (proxies ! (i + j)) = Inr True}"
proof (induction run proxies i valid rule: test_proxy_loop.induct)
  case (1 run proxies i valid)
  show ?case
  proof (cases "i < length proxies")
    case False
    then have "test_proxy_loop run proxies i valid = valid"
      by (subst test_proxy_loop.simps) (simp del: test_proxy_loop.simps)
    with False show ?thesis
      by (simp del: test_proxy_loop.simps)
  next
    case True
    let ?A = "{j. run (i + j) (proxies ! (i + j)) = Inr True}"
    let ?batch = "take batch_size (drop i proxies)"
    let ?rest = "drop (i + batch_size) proxies"
    have "?rest = drop batch_size (drop i proxies)"
      by (simp add: add.commute)
    then have split: "drop i proxies = ?batch @ ?rest"
      by (simp only: append_take_drop_id)
    have b: "test_proxy_batch (\<lambda>j. run (i + j)) ?batch = nths ?batch ?A"
      unfolding test_proxy_batch_nths
    proof (rule nths_cong_length)
      fix j assume "j < length ?batch"
      with True have "?batch ! j = proxies ! (i + j)"
        by (simp del: test_proxy_loop.simps)
      then show "j \<in> {j. run (i + j) (?batch ! j) = Inr True} \<longleftrightarrow> j \<in> ?A" by simp
    qed
    have r: "nths ?rest {j. j + length ?batch \<in> ?A}
             = nths ?rest {j. run (i + batch_size + j) (proxies ! (i + batch_size + j)) = Inr True}"
    proof (cases "i + batch_size \<le> length proxies")
      case True
      then have "length ?batch = batch_size"
        by (simp del: test_proxy_loop.simps)
      then show ?thesis
        by (simp del: test_proxy_loop.simps add: add.commute add.left_commute)
    next
      case False
      then show ?thesis
        by (simp del: test_proxy_loop.simps)
    qed
    have "nths (drop i proxies) ?A = nths (?batch @ ?rest) ?A"
      using split by simp
    also have "\<dots> = nths ?batch ?A @ nths ?rest {j. j + length ?batch \<in> ?A}"
      by (rule nths_append)
    finally have "nths (drop i proxies) ?A
        = nths ?batch ?A
          @ nths ?rest {j. run (i + batch_size + j) (proxies ! (i + batch_size + j)) = Inr True}"
      using r by simp
    then have whole: "valid @ nths (drop i proxies) ?A
        = (valid @ nths ?batch ?A)
          @ nths ?rest {j. run (i + batch_size + j) (proxies ! (i + batch_size + j)) = Inr True}"
      by (simp only: append_assoc)
    from True have "test_proxy_loop run proxies i valid
        = test_proxy_loop run proxies (i + batch_size)
            (valid @ test_proxy_batch (\<lambda>j. run (i + j)) ?batch)"
      by (subst test_proxy_loop.simps) (simp del: test_proxy_loop.simps)
    also have "\<dots> = (valid @ test_proxy_batch (\<lambda>j. run (i + j)) ?batch)
          @ nths ?rest {j. run (i + batch_size + j) (proxies ! (i + batch_size + j)) = Inr True}"
      using True by (rule "1.IH")
    also have "\<dots> = valid @ nths (drop i proxies) ?A"
      by (simp only: b whole)
    finally show ?thesis .
  qed
qed

lemma test_proxy_nths:
  "test_proxy run proxies = nths proxies {i. run i (proxies ! i) = Inr True}"
  by (simp del: test_proxy_loop.simps add: test_proxy_def test_proxy_loop_nths)

text \<open>
  C8. The result of \<^verbatim>\<open>_test_proxy_batch\<close> (and of \<^verbatim>\<open>_test_proxy_sync\<close> and
  of \<^verbatim>\<open>__test_proxy\<close>, which return the same list) holds the proxies at exactly the
  positions whose test returned True. So a proxy whose test returned True is in the
  result whatever the tests of the others did (returned False, or raised); every proxy
  in the result stands at a position whose test returned True; and when the outcome of a
  test depends on the proxy only, every proxy in the result is one the test returned
  True for, none one it returned False for or raised at.
\<close>

theorem batch_tester_keeps_exactly_the_passed:
  "test_proxy_batch run proxies = nths proxies {i. run i (proxies ! i) = Inr True}
   \<and> test_proxy_sync run proxies = test_proxy_batch run proxies
   \<and> test_proxy run proxies = test_proxy_batch run proxies
   \<and> (\<forall>i < length proxies. run i (proxies ! i) = Inr True \<longrightarrow>
          proxies ! i \<in> set (test_proxy_batch run proxies))
   \<and> (\<forall>p \<in> set (test_proxy_batch run proxies).
          \<exists>i < length proxies. proxies ! i = p \<and> run i p = Inr True)
   \<and> (\<forall>p \<in> set (test_proxy_batch (\<lambda>i. validate) proxies). validate p = Inr True)"
  by (auto simp del: test_proxy_loop.simps
      simp: test_proxy_batch_nths test_proxy_sync_nths test_proxy_nths set_nths)

theorem batch_tester_keeps_exactly_the_passed_witness:
  "test_proxy_batch (\<lambda>i proxy. if i = 1 then Inl IndexError else Inr (i = 0))
      [''a'', ''b'', ''c'', ''a''] = [''a'']
   \<and> test_proxy_sync (\<lambda>i proxy. if i = 1 then Inl IndexError else Inr (i = 0))
      [''a'', ''b'', ''c'', ''a''] = [''a'']
   \<and> test_proxy (\<lambda>i proxy. if i = 1 then Inl IndexError else Inr (i = 0))
      [''a'', ''b'', ''c'', ''a''] = [''a'']
   \<and> (0::nat) < length [''a'', ''b'', ''c'', ''a'']
   \<and> ''a'' \<in> set (test_proxy_batch (\<lambda>i proxy. if i = 1 then Inl IndexError else Inr (i = 0))
                    [''a'', ''b'', ''c'', ''a''])
   \<and> test_proxy_batch (\<lambda>i proxy. if proxy = ''b'' then Inl IndexError else Inr (proxy = ''a''))
      [''a'', ''b'', ''c'', ''a''] = [''a'', ''a'']"
  using batch_tester_keeps_exactly_the_passed
    [of "\<lambda>i proxy. if i = 1 then Inl IndexError else Inr (i = 0)" "[''a'', ''b'', ''c'', ''a'']"
        "\<lambda>proxy. if proxy = ''b'' then Inl IndexError else Inr (proxy = ''a'')"]
    batch_tester_keeps_exactly_the_passed
    [of "\<lambda>i proxy. if proxy = ''b'' then Inl IndexError else Inr (proxy = ''a'')"
        "[''a'', ''b'', ''c'', ''a'']"]
  by (simp del: test_proxy_loop.simps add: nths_Cons)

subsection \<open>What a reader gets\<close>

text \<open>
  A refresh cycle creates new lists and binds \<^verbatim>\<open>cls._proxies\<close> to one of them; the
  lists that exist keep their contents.
\<close>

lemma proxies_async_frame:
  assumes "proxies_async now1 resp now2 s = Inr (r, s')"
  shows "next_ref s \<le> next_ref s' \<and> (\<forall>q < next_ref s. heap s' q = heap s q)"
  using assms
  by (cases rule: proxies_async_cases)
     (simp_all add: refresh_proxies_heap refresh_proxies_next_ref cleared_fields)

lemma proxies_async_returns_ref:
  assumes "proxies_async now1 resp now2 s = Inr (r, s')"
  shows "r = cls_proxies s'"
  using assms by (cases rule: proxies_async_cases) simp_all

text \<open>
  C9, as stated, says that a reader gets a copy or an immutable view, never the pool
  manager's own list. The reference \<^verbatim>\<open>proxies_async\<close> returns is the one
  \<^verbatim>\<open>cls._proxies\<close> holds: after the caller appends to the list it got, the pool
  has the appended element.
\<close>

theorem read_returns_own_list_counterexample:
  "(case proxies_async 1 (Response ''1.1.1.1:80'') 2 (initial 0) of
      Inl e \<Rightarrow> False
    | Inr (r, s) \<Rightarrow>
        r = cls_proxies s
        \<and> pool s = [''1.1.1.1:80'']
        \<and> pool (list_append r ''x'' s) = [''1.1.1.1:80'', ''x''])"
proof -
  have "pool (initial 0) = []"
    by (simp add: initial_def pool_def)
  then show ?thesis
    by (simp add: proxies_async_empty refresh_proxies_pool list_append_def pool_def
        refresh_proxies_heap refresh_proxies_ref newline_def)
qed

text \<open>
  C9, amended. Every read returns the reference that \<^verbatim>\<open>cls._proxies\<close> holds after
  the call: the pool manager's own list and no copy. Neither a read nor a refresh changes
  the contents of a list that exists when it starts (a cycle binds the pool to a list it
  creates), and the pool of every state of a run is a list that exists; so the list a
  reader holds is not changed by a later refresh.
\<close>

theorem read_returns_pool_reference:
  "(proxies_async now1 resp now2 s = Inr (r, s') \<longrightarrow>
      r = cls_proxies s' \<and> returned_list (r, s') = pool s'
      \<and> next_ref s \<le> next_ref s' \<and> (\<forall>q < next_ref s. heap s' q = heap s q))
   \<and> next_ref s \<le> next_ref (refresh_proxies resp now s)
   \<and> (\<forall>q < next_ref s. heap (refresh_proxies resp now s) q = heap s q)
   \<and> (reachable s \<longrightarrow> cls_proxies s < next_ref s)"
proof (intro conjI impI)
  assume a: "proxies_async now1 resp now2 s = Inr (r, s')"
  from proxies_async_returns_ref [OF a] show "r = cls_proxies s'" .
  then show "returned_list (r, s') = pool s'"
    by (simp add: returned_list_def pool_def)
  from proxies_async_frame [OF a]
  show "next_ref s \<le> next_ref s'" and "\<forall>q < next_ref s. heap s' q = heap s q"
    by simp_all
next
  show "next_ref s \<le> next_ref (refresh_proxies resp now s)"
    by (simp add: refresh_proxies_next_ref)
  show "\<forall>q < next_ref s. heap (refresh_proxies resp now s) q = heap s q"
    by (simp add: refresh_proxies_heap)
next
  assume "reachable s"
  then show "cls_proxies s < next_ref s"
    using reachable_invariant by blast
qed

theorem read_returns_pool_reference_witness:
  "reachable (refresh_proxies (Response ''1.1.1.1:80'') 2 (initial 0))
   \<and> proxies_async 3 RequestException 4 (refresh_proxies (Response ''1.1.1.1:80'') 2 (initial 0))
       = Inr (1, refresh_proxies (Response ''1.1.1.1:80'') 2 (initial 0))
   \<and> cls_proxies (refresh_proxies (Response ''1.1.1.1:80'') 2 (initial 0)) = 1
   \<and> returned_list (1, refresh_proxies (Response ''1.1.1.1:80'') 2 (initial 0))
       = [''1.1.1.1:80'']
   \<and> (1::nat) < next_ref (refresh_proxies (Response ''1.1.1.1:80'') 2 (initial 0))
   \<and> heap (refresh_proxies RequestException 9
              (refresh_proxies (Response ''1.1.1.1:80'') 2 (initial 0))) 1 = [''1.1.1.1:80'']
   \<and> pool (refresh_proxies RequestException 9
              (refresh_proxies (Response ''1.1.1.1:80'') 2 (initial 0))) = []"
proof -
  let ?s = "refresh_proxies (Response ''1.1.1.1:80'') 2 (initial 0)"
  have r: "reachable ?s"
    by (intro reachable.refresh reachable.start)
  have c: "cls_proxies ?s = 1"
    by (simp add: refresh_proxies_ref initial_def)
  have p: "pool ?s = [''1.1.1.1:80'']"
    by (simp add: refresh_proxies_pool newline_def)
  have "proxies_async 3 RequestException 4 ?s = Inr (cls_proxies ?s, ?s)"
    by (rule proxies_async_fresh [where t = 2])
       (simp_all add: p refresh_proxies_timestamp proxy_expiration_def)
  with c have a: "proxies_async 3 RequestException 4 ?s = Inr (1, ?s)"
    by simp
  have h: "heap ?s 1 = [''1.1.1.1:80'']"
    using p c by (simp add: pool_def)
  from read_returns_pool_reference [of 3 RequestException 4 ?s 1 ?s 9] r a c
  have "returned_list (1, ?s) = pool ?s"
    and "\<forall>q < next_ref ?s. heap (refresh_proxies RequestException 9 ?s) q = heap ?s q"
    and "1 < next_ref ?s"
    by simp_all
  with r a c p h show ?thesis
    by (simp add: refresh_proxies_pool)
qed

subsection \<open>Reads at the same time\<close>

lemma refresh_cycles_refresh_proxies:
  "refresh_cycles (refresh_proxies resp now s) = Suc (refresh_cycles s)"
  by (cases resp) (simp_all add: refresh_cycles_def refresh_proxies_printed)

lemma refresh_cycles_cleared:
  "refresh_cycles (cleared s) = refresh_cycles s"
  by (simp add: refresh_cycles_def cleared_fields)

lemma proxies_async_calls_fresh:
  "pool s \<noteq> [] \<Longrightarrow> cls_proxy_timestamp s = Some t \<Longrightarrow>
   \<forall>c \<in> set calls. fst c \<le> t + proxy_expiration \<Longrightarrow>
   proxies_async_calls calls s = Inr (replicate (length calls) (cls_proxies s), s)"
proof (induction calls)
  case Nil
  show ?case by simp
next
  case (Cons c calls)
  obtain now1 resp now2 where c: "c = (now1, resp, now2)"
    by (cases c)
  with Cons.prems have "\<not> t + proxy_expiration < now1"
    by simp
  with Cons c show ?case
    by (simp add: proxies_async_fresh)
qed

lemma proxies_async_calls_failing:
  "pool s = [] \<Longrightarrow> \<forall>c \<in> set calls. fst (snd c) = RequestException \<Longrightarrow>
   \<exists>rs s'. proxies_async_calls calls s = Inr (rs, s')
      \<and> refresh_cycles s' = refresh_cycles s + length calls \<and> pool s' = []"
proof (induction calls arbitrary: s)
  case Nil
  then show ?case by simp
next
  case (Cons c calls)
  obtain now1 now2 where c: "c = (now1, RequestException, now2)"
    using Cons.prems(2) by (cases c) auto
  let ?s1 = "refresh_proxies RequestException now2 s"
  have p: "pool ?s1 = []"
    by (simp add: refresh_proxies_pool)
  from Cons.prems(2) have "\<forall>c \<in> set calls. fst (snd c) = RequestException"
    by simp
  from Cons.IH [OF p this] obtain rs s' where
    "proxies_async_calls calls ?s1 = Inr (rs, s')"
    "refresh_cycles s' = refresh_cycles ?s1 + length calls" "pool s' = []"
    by blast
  with Cons.prems(1) c show ?case
    by (simp add: proxies_async_empty refresh_cycles_refresh_proxies)
qed

text \<open>
  C3, as stated, says that of \<open>n\<close> reads of a stale pool made at the same time exactly
  one runs a refresh cycle. Two reads of the empty pool whose fetches both fail run two
  cycles.
\<close>

theorem reads_at_once_counterexample:
  "stale 1 (initial 0)
   \<and> (case proxies_async_calls [(1, RequestException, 2), (3, RequestException, 4)] (initial 0) of
        Inl e \<Rightarrow> False
      | Inr (rs, s) \<Rightarrow> refresh_cycles s = 2 \<and> refresh_cycles (initial 0) = 0)"
proof -
  have p: "pool (initial 0) = []"
    by (simp add: initial_def pool_def)
  have q: "pool (refresh_proxies RequestException 2 (initial 0)) = []"
    by (simp add: refresh_proxies_pool)
  have "refresh_cycles (initial 0) = 0"
    by (simp add: refresh_cycles_def initial_def)
  with p q show ?thesis
    by (simp add: stale_def proxies_async_empty refresh_cycles_refresh_proxies)
qed

text \<open>
  C3, amended. \<^verbatim>\<open>proxies_async\<close> takes no lock and never suspends, so the reads run
  one after the other. When the first read finds the pool stale and its fetch succeeds,
  and the clock of every later read is at most the expiration window after the stored
  timestamp, exactly one refresh cycle runs and every read returns the same list, the
  one that cycle stored. When the pool is empty and every fetch fails, every read runs
  a cycle of its own.
\<close>

theorem reads_in_a_row_refresh_once:
  "(stale now1 s \<and> (\<forall>c \<in> set calls. fst c \<le> now2 + proxy_expiration) \<longrightarrow>
      (\<exists>r s'. proxies_async_calls ((now1, Response body, now2) # calls) s
                 = Inr (replicate (Suc (length calls)) r, s')
         \<and> refresh_cycles s' = Suc (refresh_cycles s)
         \<and> returned_list (r, s') = str_split body newline))
   \<and> (pool s = [] \<and> (\<forall>c \<in> set calls. fst (snd c) = RequestException) \<longrightarrow>
      (\<exists>rs s'. proxies_async_calls calls s = Inr (rs, s')
         \<and> refresh_cycles s' = refresh_cycles s + length calls))"
proof (intro conjI impI)
  assume a: "stale now1 s \<and> (\<forall>c \<in> set calls. fst c \<le> now2 + proxy_expiration)"
  then obtain s0 where s0: "s0 = s \<or> s0 = cleared s"
    and first: "proxies_async now1 (Response body) now2 s
      = Inr (cls_proxies (refresh_proxies (Response body) now2 s0),
             refresh_proxies (Response body) now2 s0)"
    using proxies_async_stale [of now1 s "Response body" now2] by blast
  let ?s1 = "refresh_proxies (Response body) now2 s0"
  have p: "pool ?s1 = str_split body newline"
    by (simp add: refresh_proxies_pool)
  then have ne: "pool ?s1 \<noteq> []"
    by (simp add: str_split_not_Nil)
  have ts: "cls_proxy_timestamp ?s1 = Some now2"
    by (simp add: refresh_proxies_timestamp)
  from a have rest: "proxies_async_calls calls ?s1
      = Inr (replicate (length calls) (cls_proxies ?s1), ?s1)"
    by (intro proxies_async_calls_fresh [OF ne ts]) simp
  from s0 have cyc: "refresh_cycles ?s1 = Suc (refresh_cycles s)"
    by (auto simp: refresh_cycles_refresh_proxies refresh_cycles_cleared)
  from p have "returned_list (cls_proxies ?s1, ?s1) = str_split body newline"
    by (simp add: returned_list_def pool_def)
  with first rest cyc
  show "\<exists>r s'. proxies_async_calls ((now1, Response body, now2) # calls) s
                 = Inr (replicate (Suc (length calls)) r, s')
         \<and> refresh_cycles s' = Suc (refresh_cycles s)
         \<and> returned_list (r, s') = str_split body newline"
    by simp
next
  assume "pool s = [] \<and> (\<forall>c \<in> set calls. fst (snd c) = RequestException)"
  then show "\<exists>rs s'. proxies_async_calls calls s = Inr (rs, s')
         \<and> refresh_cycles s' = refresh_cycles s + length calls"
    using proxies_async_calls_failing [of s calls] by blast
qed

theorem reads_in_a_row_refresh_once_witness:
  "stale 1 (initial 0)
   \<and> (3::int) \<le> 2 + proxy_expiration \<and> (5::int) \<le> 2 + proxy_expiration
   \<and> (\<exists>r s'. proxies_async_calls
                [(1, Response ''1.1.1.1:80'', 2), (3, RequestException, 4), (5, Response ''x'', 6)]
                (initial 0) = Inr ([r, r, r], s')
         \<and> refresh_cycles s' = 1
         \<and> returned_list (r, s') = [''1.1.1.1:80''])
   \<and> pool (initial 0) = []
   \<and> (\<exists>rs s'. proxies_async_calls [(1, RequestException, 2), (3, RequestException, 4)] (initial 0)
                = Inr (rs, s')
         \<and> refresh_cycles s' = 2)"
proof -
  have st: "stale 1 (initial 0)"
    by (simp add: stale_def pool_def initial_def)
  have le: "\<forall>c \<in> set [(3::int, RequestException, 4::int), (5, Response ''x'', 6)].
              fst c \<le> 2 + proxy_expiration"
    by (simp add: proxy_expiration_def)
  have e: "pool (initial 0) = []"
    by (simp add: pool_def initial_def)
  have z: "refresh_cycles (initial 0) = 0"
    by (simp add: refresh_cycles_def initial_def)
  have sp: "str_split ''1.1.1.1:80'' newline = [''1.1.1.1:80'']"
    by (simp add: newline_def)
  from reads_in_a_row_refresh_once
    [of 1 "initial 0" "[(3, RequestException, 4), (5, Response ''x'', 6)]" 2 "''1.1.1.1:80''"]
    st le z sp
  have first: "\<exists>r s'. proxies_async_calls
                [(1, Response ''1.1.1.1:80'', 2), (3, RequestException, 4), (5, Response ''x'', 6)]
                (initial 0) = Inr ([r, r, r], s')
         \<and> refresh_cycles s' = 1
         \<and> returned_list (r, s') = [''1.1.1.1:80'']"
    by (simp add: proxy_expiration_def)
  from conjunct2 [OF reads_in_a_row_refresh_once
    [of 1 "initial 0" "[(1, RequestException, 2), (3, RequestException, 4)]" 2 "''x''"]] e z
  have second: "\<exists>rs s'. proxies_async_calls
                 [(1, RequestException, 2), (3, RequestException, 4)] (initial 0) = Inr (rs, s')
         \<and> refresh_cycles s' = 2"
    by (simp del: proxies_async_calls.simps add: numeral_2_eq_2)
  from st e first second show ?thesis
    by (simp del: proxies_async_calls.simps add: proxy_expiration_def)
qed

end
